theory Spec2Isabelle
  imports Main "HOL-Library.AList" "HOL-Library.Sublist"
begin

section \<open>Values, tables and errors\<close>

text \<open>
  The program is \<^verbatim>\<open>app.py\<close>: a start-up script that unpacks archives, reads the
  extracted CSV files with pandas, merges and cleans them into the module-level table
  \<^verbatim>\<open>df\<close>, and two Flask applications. pandas, zipfile, plotly and Flask are libraries;
  the part of their behaviour the script relies on is written out below, and what they
  compute from file contents (the CSV parser, the date parser, the HTML writer) is a
  parameter of the model.

  A time stamp is a number of nanoseconds since the epoch, or pandas' missing marker
  \<^verbatim>\<open>NaT\<close>; time zones are not modelled. A cell is a missing value, a text, a number or a
  time stamp. No operation of the script looks inside a number, so numbers are integers.
\<close>

datatype datetime = NaT | Timestamp int

datatype cell = NaN | Text string | Number int | Date datetime

datatype error =
    KeyError string
  | DuplicateLabel string
  | IndexError
  | ValueError
  | TypeError
  | SystemExit nat

text \<open>
  A \<^verbatim>\<open>DataFrame\<close>: the column labels in order, and the rows, each row holding one cell
  per label. A label may occur twice (after the labels were rewritten).
\<close>

record frame =
  columns :: "string list"
  rows :: "cell list list"

definition cell_at :: "cell list \<Rightarrow> nat \<Rightarrow> cell" where
  "cell_at r i = (if i < length r then r ! i else NaN)"

definition positions :: "string list \<Rightarrow> string \<Rightarrow> nat list" where
  "positions cs c = [i \<leftarrow> [0..<length cs]. cs ! i = c]"

text \<open>
  Where the column labelled \<open>c\<close> stands: \<^verbatim>\<open>KeyError\<close> when no column carries the
  label. When several do, \<^verbatim>\<open>df[c]\<close> is a sub-frame in pandas, on which none of the
  script's uses (\<^verbatim>\<open>pd.to_datetime\<close>, \<^verbatim>\<open>.unique()\<close>, a comparison that yields a row
  mask) goes through; the model stops there with \<open>DuplicateLabel\<close>.
\<close>

definition loc :: "string list \<Rightarrow> string \<Rightarrow> error + nat" where
  "loc cs c =
     (case positions cs c of
        [] \<Rightarrow> Inl (KeyError c)
      | [i] \<Rightarrow> Inr i
      | _ \<Rightarrow> Inl (DuplicateLabel c))"

text \<open>\<^verbatim>\<open>df[c]\<close> as a column.\<close>

definition getitem :: "frame \<Rightarrow> string \<Rightarrow> error + cell list" where
  "getitem t c =
     (case loc (columns t) c of
        Inl e \<Rightarrow> Inl e
      | Inr i \<Rightarrow> Inr (map (\<lambda>r. cell_at r i) (rows t)))"

text \<open>\<^verbatim>\<open>df.empty\<close>: an axis of length 0.\<close>

definition df_empty :: "frame \<Rightarrow> bool" where
  "df_empty t = (rows t = [] \<or> columns t = [])"

text \<open>
  \<^verbatim>\<open>Series.unique()\<close>: the values in order of first appearance; a missing value is
  kept once, like any other.
\<close>

fun unique :: "'a list \<Rightarrow> 'a list" where
  "unique [] = []"
| "unique (v # vs) = v # unique [u \<leftarrow> vs. u \<noteq> v]"

section \<open>Schema normalizer: column labels\<close>

text \<open>
  Line 69: \<^verbatim>\<open>df.columns.str.strip().str.lower().str.replace(" ", "_", regex=True)\<close>.
  Labels are byte strings. \<^verbatim>\<open>str.strip()\<close> removes leading and trailing white space,
  which among the ASCII characters is 9 to 13 and 28 to 32; \<^verbatim>\<open>str.lower()\<close> maps A to Z
  to a to z; bytes from 128 on are left as they are.
\<close>

definition isspace :: "char \<Rightarrow> bool" where
  "isspace c = (let n = (of_char c :: nat) in (9 \<le> n \<and> n \<le> 13) \<or> (28 \<le> n \<and> n \<le> 32))"

definition strip :: "string \<Rightarrow> string" where
  "strip s = rev (dropWhile isspace (rev (dropWhile isspace s)))"

definition lower_char :: "char \<Rightarrow> char" where
  "lower_char c =
     (let n = (of_char c :: nat) in if 65 \<le> n \<and> n \<le> 90 then char_of (n + 32) else c)"

definition lower :: "string \<Rightarrow> string" where
  "lower s = map lower_char s"

definition replace_space :: "string \<Rightarrow> string" where
  "replace_space s = map (\<lambda>c. if c = CHR '' '' then CHR ''_'' else c) s"

definition normalize_label :: "string \<Rightarrow> string" where
  "normalize_label s = replace_space (lower (strip s))"

definition normalize_columns :: "frame \<Rightarrow> frame" where
  "normalize_columns t = t\<lparr>columns := map normalize_label (columns t)\<rparr>"


section \<open>Archive extractor (lines 20 to 36)\<close>

text \<open>
  The extraction folder is a flat directory: base file names with their contents, in the
  order a directory listing gives them. Writing a file under a name that exists replaces
  its contents; a new name is added.

  An archive is unreadable (\<^verbatim>\<open>zipfile.ZipFile\<close> raises) or a list of named entries.
  Reading an entry can fail when it is opened (\<^verbatim>\<open>zip_ref.open\<close> raises, before the
  target file is opened) or while it is read (\<^verbatim>\<open>source.read()\<close> raises, after
  \<^verbatim>\<open>open(extracted_path, "wb")\<close> has emptied the target file).
\<close>

type_synonym bytes = string

datatype payload = Data bytes | OpenFails | ReadFails

datatype archive = BadZip | Zip "(string \<times> payload) list"

type_synonym dir = "(string \<times> bytes) list"

definition endswith :: "string \<Rightarrow> string \<Rightarrow> bool" where
  "endswith s suf = (take (length suf) (rev s) = rev suf)"

text \<open>\<^verbatim>\<open>os.path.basename\<close> (POSIX): what follows the last slash.\<close>

definition basename :: "string \<Rightarrow> string" where
  "basename p = rev (takeWhile (\<lambda>c. c \<noteq> CHR ''/'') (rev p))"

text \<open>
  \<^verbatim>\<open>zip_ref.open(file)\<close> finds the entry by its name; of several entries with one name
  the archive's name table keeps the last.
\<close>

definition zip_read :: "(string \<times> payload) list \<Rightarrow> string \<Rightarrow> payload" where
  "zip_read es file = (case map_of (rev es) file of None \<Rightarrow> OpenFails | Some p \<Rightarrow> p)"

text \<open>
  The loop over \<^verbatim>\<open>zip_ref.namelist()\<close>. An exception leaves the loop, and the
  \<^verbatim>\<open>except\<close> clause around the archive goes on to the next archive.
\<close>

fun extract_names :: "(string \<times> payload) list \<Rightarrow> dir \<Rightarrow> string list \<Rightarrow> dir" where
  "extract_names es d [] = d"
| "extract_names es d (file # files) =
     (if endswith file ''.csv'' then
        (case zip_read es file of
           OpenFails \<Rightarrow> d
         | ReadFails \<Rightarrow> AList.update (basename file) [] d
         | Data bs \<Rightarrow> extract_names es (AList.update (basename file) bs d) files)
      else extract_names es d files)"

fun extract_zip :: "dir \<Rightarrow> archive \<Rightarrow> dir" where
  "extract_zip d BadZip = d"
| "extract_zip d (Zip es) = extract_names es d (map fst es)"

text \<open>The loop over \<^verbatim>\<open>zip_files\<close>; with no archive nothing is written.\<close>

definition extract_all :: "dir \<Rightarrow> archive list \<Rightarrow> dir" where
  "extract_all d zs = foldl extract_zip d zs"

text \<open>
  The writes the extraction performs, in order: the entry's name and the bytes its target
  file is left with.
\<close>

fun written_names :: "(string \<times> payload) list \<Rightarrow> string list \<Rightarrow> (string \<times> bytes) list" where
  "written_names es [] = []"
| "written_names es (file # files) =
     (if endswith file ''.csv'' then
        (case zip_read es file of
           OpenFails \<Rightarrow> []
         | ReadFails \<Rightarrow> [(file, [])]
         | Data bs \<Rightarrow> (file, bs) # written_names es files)
      else written_names es files)"

fun written_zip :: "archive \<Rightarrow> (string \<times> bytes) list" where
  "written_zip BadZip = []"
| "written_zip (Zip es) = written_names es (map fst es)"

definition written :: "archive list \<Rightarrow> (string \<times> bytes) list" where
  "written zs = concat (map written_zip zs)"

text \<open>One such write on the folder.\<close>

definition write_file :: "dir \<Rightarrow> string \<times> bytes \<Rightarrow> dir" where
  "write_file d w = AList.update (basename (fst w)) (snd w) d"

section \<open>Dataset loader (lines 38 to 66)\<close>

text \<open>
  \<^verbatim>\<open>glob("*.csv")\<close> lists the names with the suffix, leaving out names that start with
  a dot; \<^verbatim>\<open>sorted(..., key=os.path.getmtime, reverse=True)\<close> is stable, so it is the
  stable sort on the negated modification time.
\<close>

definition hidden :: "string \<Rightarrow> bool" where
  "hidden n = (case n of [] \<Rightarrow> False | c # _ \<Rightarrow> c = CHR ''.'')"

definition glob_csv :: "dir \<Rightarrow> string list" where
  "glob_csv d = [n \<leftarrow> map fst d. endswith n ''.csv'' \<and> \<not> hidden n]"

definition csv_files :: "(string \<Rightarrow> int) \<Rightarrow> dir \<Rightarrow> string list" where
  "csv_files mtime d = sort_key (\<lambda>n. - mtime n) (glob_csv d)"

text \<open>
  The loading loop: a file that cannot be read or parsed is skipped (the \<^verbatim>\<open>except\<close>
  clause), an empty table is skipped, every other table is appended.
\<close>

fun load_frames :: "(bytes \<Rightarrow> error + frame) \<Rightarrow> dir \<Rightarrow> string list \<Rightarrow> frame list" where
  "load_frames rd d [] = []"
| "load_frames rd d (file # files) =
     (case map_of d file of
        None \<Rightarrow> load_frames rd d files
      | Some bs \<Rightarrow>
          (case rd bs of
             Inl e \<Rightarrow> load_frames rd d files
           | Inr t \<Rightarrow>
               if df_empty t then load_frames rd d files
               else t # load_frames rd d files))"

text \<open>
  \<^verbatim>\<open>pd.concat(all_data_frames, ignore_index=True)\<close>: the labels of all tables in order of
  first appearance; the rows of all tables in order, each laid out on those labels, a cell
  the row's table has no column for being missing. (\<^verbatim>\<open>read_csv\<close> renames a header label
  that repeats, so the labels of one parsed table are distinct.)
\<close>

definition union_labels :: "string list \<Rightarrow> string list \<Rightarrow> string list" where
  "union_labels acc cs = acc @ [c \<leftarrow> cs. c \<notin> set acc]"

definition reindex :: "string list \<Rightarrow> frame \<Rightarrow> cell list list" where
  "reindex cs t =
     map (\<lambda>r. map (\<lambda>c. case map_of (zip (columns t) r) c of None \<Rightarrow> NaN | Some v \<Rightarrow> v) cs)
       (rows t)"

definition pd_concat :: "frame list \<Rightarrow> frame" where
  "pd_concat ts =
     (let cs = foldl union_labels [] (map columns ts)
      in \<lparr>columns = cs, rows = concat (map (reindex cs) ts)\<rparr>)"

section \<open>Schema normalizer: the date column (lines 70 and 71)\<close>

text \<open>
  \<^verbatim>\<open>pd.to_datetime\<close> on one value. A time stamp is kept, a missing value becomes
  \<^verbatim>\<open>NaT\<close>; anything else goes to pandas' parser, a parameter that answers \<open>None\<close> for
  what it cannot read. With \<^verbatim>\<open>errors="coerce"\<close> such a value becomes \<^verbatim>\<open>NaT\<close>; without,
  the call raises.
\<close>

fun to_datetime :: "(cell \<Rightarrow> datetime option) \<Rightarrow> cell \<Rightarrow> error + datetime" where
  "to_datetime parse (Date t) = Inr t"
| "to_datetime parse NaN = Inr NaT"
| "to_datetime parse c = (case parse c of None \<Rightarrow> Inl ValueError | Some t \<Rightarrow> Inr t)"

definition to_datetime_coerce :: "(cell \<Rightarrow> datetime option) \<Rightarrow> cell \<Rightarrow> datetime" where
  "to_datetime_coerce parse c = (case to_datetime parse c of Inl e \<Rightarrow> NaT | Inr t \<Rightarrow> t)"

text \<open>\<^verbatim>\<open>df[c] = values\<close> for the column at position \<open>i\<close>.\<close>

definition setitem :: "frame \<Rightarrow> nat \<Rightarrow> cell list \<Rightarrow> frame" where
  "setitem t i vs = t\<lparr>rows := map (\<lambda>(r, v). r[i := v]) (zip (rows t) vs)\<rparr>"

definition isna :: "cell \<Rightarrow> bool" where
  "isna c = (c = NaN \<or> c = Date NaT)"

text \<open>\<^verbatim>\<open>df.dropna(subset=[c], inplace=True)\<close> for the column at position \<open>i\<close>.\<close>

definition dropna :: "frame \<Rightarrow> nat \<Rightarrow> frame" where
  "dropna t i = t\<lparr>rows := [r \<leftarrow> rows t. \<not> isna (cell_at r i)]\<rparr>"

text \<open>Lines 69 to 71 on the merged table.\<close>

definition coerced_dates :: "(cell \<Rightarrow> datetime option) \<Rightarrow> frame \<Rightarrow> nat \<Rightarrow> cell list" where
  "coerced_dates parse t i = map (\<lambda>r. Date (to_datetime_coerce parse (cell_at r i))) (rows t)"

definition clean :: "(cell \<Rightarrow> datetime option) \<Rightarrow> frame \<Rightarrow> error + frame" where
  "clean parse merged =
     (let t = normalize_columns merged in
      case loc (columns t) ''date'' of
        Inl e \<Rightarrow> Inl e
      | Inr i \<Rightarrow> Inr (dropna (setitem t i (coerced_dates parse t i)) i))"

section \<open>Start-up (lines 13 to 78)\<close>

text \<open>
  What the script finds when it starts: the archives \<^verbatim>\<open>glob\<close> lists, the extraction folder
  as it is, the modification times line 39 reads, pandas' CSV parser and date parser.
\<close>

record env =
  zip_files :: "archive list"
  extract_folder :: dir
  getmtime :: "string \<Rightarrow> int"
  read_csv :: "bytes \<Rightarrow> error + frame"
  parse_datetime :: "cell \<Rightarrow> datetime option"

definition all_data_frames :: "env \<Rightarrow> frame list" where
  "all_data_frames w =
     (let d = extract_all (extract_folder w) (zip_files w)
      in load_frames (read_csv w) d (csv_files (getmtime w) d))"

text \<open>Lines 20 to 71: the table, or the error the script stops with.\<close>

definition build_table :: "env \<Rightarrow> error + frame" where
  "build_table w =
     (let d = extract_all (extract_folder w) (zip_files w) in
      if csv_files (getmtime w) d = [] then Inl (SystemExit 1)
      else if all_data_frames w = [] then Inl (SystemExit 1)
      else clean (parse_datetime w) (pd_concat (all_data_frames w)))"

text \<open>Line 76: \<^verbatim>\<open>df["name"].unique()[0]\<close>.\<close>

definition default_athlete :: "frame \<Rightarrow> error + cell" where
  "default_athlete t =
     (case getitem t ''name'' of
        Inl e \<Rightarrow> Inl e
      | Inr col \<Rightarrow> (case unique col of [] \<Rightarrow> Inl IndexError | a # _ \<Rightarrow> Inr a))"

definition DEFAULT_VAR1 :: string where
  "DEFAULT_VAR1 = ''time_to_takeoff''"

definition DEFAULT_VAR2 :: string where
  "DEFAULT_VAR2 = ''mrsi''"

text \<open>The module-level state the request handlers read.\<close>

record state =
  df :: frame
  DEFAULT_ATHLETE :: cell

definition startup :: "env \<Rightarrow> error + state" where
  "startup w =
     (case build_table w of
        Inl e \<Rightarrow> Inl e
      | Inr t \<Rightarrow>
          (case default_athlete t of
             Inl e \<Rightarrow> Inl e
           | Inr a \<Rightarrow> Inr \<lparr>df = t, DEFAULT_ATHLETE = a\<rparr>))"

section \<open>Query engine and chart renderer (\<^verbatim>\<open>create_plot\<close>, lines 100 to 151)\<close>

text \<open>
  \<^verbatim>\<open>df["name"] == athlete\<close>, element by element: a missing value equals nothing, itself
  included.
\<close>

definition eq_cell :: "cell \<Rightarrow> cell \<Rightarrow> bool" where
  "eq_cell a b = (a = b \<and> \<not> isna a)"

text \<open>
  \<^verbatim>\<open>df["date"] >= t\<close> and \<^verbatim>\<open>df["date"] <= t\<close>, element by element, for a column of
  time stamps: every comparison with \<^verbatim>\<open>NaT\<close> is false. A column that holds something else
  than time stamps cannot be compared with one (\<^verbatim>\<open>TypeError\<close>).
\<close>

fun ge_datetime :: "datetime \<Rightarrow> datetime \<Rightarrow> bool" where
  "ge_datetime (Timestamp a) (Timestamp b) = (b \<le> a)"
| "ge_datetime _ _ = False"

fun le_datetime :: "datetime \<Rightarrow> datetime \<Rightarrow> bool" where
  "le_datetime (Timestamp a) (Timestamp b) = (a \<le> b)"
| "le_datetime _ _ = False"

fun compare_dates :: "(datetime \<Rightarrow> datetime \<Rightarrow> bool) \<Rightarrow> cell list \<Rightarrow> datetime \<Rightarrow> error + bool list" where
  "compare_dates cmp [] t = Inr []"
| "compare_dates cmp (Date u # cs) t =
     (case compare_dates cmp cs t of Inl e \<Rightarrow> Inl e | Inr bs \<Rightarrow> Inr (cmp u t # bs))"
| "compare_dates cmp (c # cs) t = Inl TypeError"

text \<open>\<^verbatim>\<open>a & b\<close> on two masks, and \<^verbatim>\<open>df[mask]\<close>.\<close>

definition mask_and :: "bool list \<Rightarrow> bool list \<Rightarrow> bool list" where
  "mask_and as bs = map (\<lambda>(a, b). a \<and> b) (zip as bs)"

definition boolean_index :: "frame \<Rightarrow> bool list \<Rightarrow> frame" where
  "boolean_index t m = t\<lparr>rows := map fst (filter snd (zip (rows t) m))\<rparr>"

text \<open>Lines 104 to 108: \<^verbatim>\<open>filtered_df\<close>.\<close>

definition filter_rows ::
  "(cell \<Rightarrow> datetime option) \<Rightarrow> frame \<Rightarrow> cell \<Rightarrow> cell \<Rightarrow> cell \<Rightarrow> error + frame" where
  "filter_rows parse t athlete start_date end_date =
     (case getitem t ''name'' of Inl e \<Rightarrow> Inl e | Inr names \<Rightarrow>
      case getitem t ''date'' of Inl e \<Rightarrow> Inl e | Inr dates \<Rightarrow>
      case to_datetime parse start_date of Inl e \<Rightarrow> Inl e | Inr s \<Rightarrow>
      case compare_dates ge_datetime dates s of Inl e \<Rightarrow> Inl e | Inr m2 \<Rightarrow>
      case to_datetime parse end_date of Inl e \<Rightarrow> Inl e | Inr u \<Rightarrow>
      case compare_dates le_datetime dates u of Inl e \<Rightarrow> Inl e | Inr m3 \<Rightarrow>
        Inr (boolean_index t
          (mask_and (mask_and (map (\<lambda>c. eq_cell c athlete) names) m2) m3)))"

text \<open>
  The figure handed to \<^verbatim>\<open>pio.to_html\<close>: what the script puts into it. The HTML writer is
  a parameter.
\<close>

record scatter =
  scatter_x :: "cell list"
  scatter_y :: "cell list"
  scatter_mode :: string
  scatter_name :: string
  scatter_color :: string
  scatter_fill :: string
  scatter_fillcolor :: string
  scatter_yaxis :: string

record figure =
  fig_data :: "scatter list"
  fig_title :: "string \<times> cell"
  fig_yaxis_title :: string
  fig_yaxis2_title :: string

definition no_data_notice :: string where
  "no_data_notice = ''<h3>No data available for the selected athlete and date range.</h3>''"

definition create_plot ::
  "(cell \<Rightarrow> datetime option) \<Rightarrow> (figure \<Rightarrow> string) \<Rightarrow> frame \<Rightarrow>
     cell \<Rightarrow> string \<Rightarrow> string \<Rightarrow> cell \<Rightarrow> cell \<Rightarrow> error + string" where
  "create_plot parse to_html t athlete var1 var2 start_date end_date =
     (case filter_rows parse t athlete start_date end_date of Inl e \<Rightarrow> Inl e | Inr filtered_df \<Rightarrow>
      if df_empty filtered_df then Inr no_data_notice
      else
        case getitem filtered_df ''date'' of Inl e \<Rightarrow> Inl e | Inr x1 \<Rightarrow>
        case getitem filtered_df var1 of Inl e \<Rightarrow> Inl e | Inr y1 \<Rightarrow>
        case getitem filtered_df ''date'' of Inl e \<Rightarrow> Inl e | Inr x2 \<Rightarrow>
        case getitem filtered_df var2 of Inl e \<Rightarrow> Inl e | Inr y2 \<Rightarrow>
          Inr (to_html
            \<lparr>fig_data =
               [\<lparr>scatter_x = x1, scatter_y = y1, scatter_mode = ''lines+markers'',
                  scatter_name = var1, scatter_color = ''red'', scatter_fill = ''tonexty'',
                  scatter_fillcolor = ''rgba(255, 0, 0, 0.3)'', scatter_yaxis = ''y''\<rparr>,
                \<lparr>scatter_x = x2, scatter_y = y2, scatter_mode = ''lines+markers'',
                  scatter_name = var2, scatter_color = ''yellow'', scatter_fill = ''tonexty'',
                  scatter_fillcolor = ''rgba(255, 255, 0, 0.3)'', scatter_yaxis = ''y2''\<rparr>],
             fig_title = (''Performance Over Time - '', athlete),
             fig_yaxis_title = var1,
             fig_yaxis2_title = var2\<rparr>))"

section \<open>Web endpoint (lines 80 to 98 and 153 to 166)\<close>

datatype http_method = GET | POST | HEAD | OPTIONS | PUT | PATCH | DELETE

record request =
  req_method :: http_method
  req_path :: string
  req_form :: "(string \<times> string) list"

text \<open>
  A response: a body returned as it is, the template \<^verbatim>\<open>index.html\<close> rendered on the
  values handed to \<^verbatim>\<open>render_template\<close> (the template is not part of \<^verbatim>\<open>app.py\<close>), or
  what Flask answers by itself.
\<close>

datatype response =
    Body string
  | Template string string "cell list" "string list"
  | AutomaticOptions
  | NotFound
  | MethodNotAllowed
  | InternalServerError error

text \<open>
  \<^verbatim>\<open>Series.min()\<close> and \<^verbatim>\<open>Series.max()\<close> on the date column: missing values are
  skipped, and a column with no time stamp gives \<^verbatim>\<open>NaT\<close>.
\<close>

fun stamp :: "cell \<Rightarrow> int option" where
  "stamp (Date (Timestamp n)) = Some n"
| "stamp _ = None"

definition series_min :: "cell list \<Rightarrow> cell" where
  "series_min col =
     (case List.map_filter stamp col of
        [] \<Rightarrow> Date NaT
      | n # ns \<Rightarrow> Date (Timestamp (fold min ns n)))"

definition series_max :: "cell list \<Rightarrow> cell" where
  "series_max col =
     (case List.map_filter stamp col of
        [] \<Rightarrow> Date NaT
      | n # ns \<Rightarrow> Date (Timestamp (fold max ns n)))"

text \<open>
  Lines 88 to 92: \<^verbatim>\<open>request.form.get(key, default)\<close> is the first value sent under the
  key, the default when none was sent. The defaults of the two dates are computed on
  every request.
\<close>

definition request_args ::
  "state \<Rightarrow> request \<Rightarrow> error + cell \<times> string \<times> string \<times> cell \<times> cell" where
  "request_args st req =
     (let athlete =
            (case map_of (req_form req) ''athlete'' of
               None \<Rightarrow> DEFAULT_ATHLETE st | Some v \<Rightarrow> Text v);
          var1 = (case map_of (req_form req) ''var1'' of None \<Rightarrow> DEFAULT_VAR1 | Some v \<Rightarrow> v);
          var2 = (case map_of (req_form req) ''var2'' of None \<Rightarrow> DEFAULT_VAR2 | Some v \<Rightarrow> v)
      in
        case getitem (df st) ''date'' of Inl e \<Rightarrow> Inl e | Inr dates \<Rightarrow>
          Inr (athlete, var1, var2,
            (case map_of (req_form req) ''start_date'' of
               None \<Rightarrow> series_min dates | Some v \<Rightarrow> Text v),
            (case map_of (req_form req) ''end_date'' of
               None \<Rightarrow> series_max dates | Some v \<Rightarrow> Text v)))"

text \<open>The view \<^verbatim>\<open>index\<close>; an exception in a view is answered with status 500.\<close>

definition index ::
  "(cell \<Rightarrow> datetime option) \<Rightarrow> (figure \<Rightarrow> string) \<Rightarrow> state \<Rightarrow> request \<Rightarrow> response" where
  "index parse to_html st req =
     (case request_args st req of
        Inl e \<Rightarrow> InternalServerError e
      | Inr (athlete, var1, var2, start_date, end_date) \<Rightarrow>
          (case create_plot parse to_html (df st) athlete var1 var2 start_date end_date of
             Inl e \<Rightarrow> InternalServerError e
           | Inr plot_html \<Rightarrow>
               (case getitem (df st) ''name'' of
                  Inl e \<Rightarrow> InternalServerError e
                | Inr names \<Rightarrow>
                    Template ''index.html'' plot_html (unique names) (columns (df st)))))"

text \<open>
  A Flask application is its URL rules: path, methods, view. Flask adds \<^verbatim>\<open>HEAD\<close> to a
  rule that takes \<^verbatim>\<open>GET\<close> and \<^verbatim>\<open>OPTIONS\<close> to every rule, answers \<^verbatim>\<open>OPTIONS\<close> itself,
  answers 404 when no rule has the path and 405 when rules have the path but none takes
  the method. A rule declared without \<^verbatim>\<open>methods\<close> takes \<^verbatim>\<open>GET\<close>.
\<close>

type_synonym flask_app = "(string \<times> http_method list \<times> (request \<Rightarrow> response)) list"

definition route_methods :: "http_method list \<Rightarrow> http_method list" where
  "route_methods ms = ms @ (if GET \<in> set ms then [HEAD] else []) @ [OPTIONS]"

definition dispatch :: "flask_app \<Rightarrow> request \<Rightarrow> response" where
  "dispatch a req =
     (case [r \<leftarrow> a. fst r = req_path req] of
        [] \<Rightarrow> NotFound
      | rs \<Rightarrow>
          (case [r \<leftarrow> rs. req_method req \<in> set (route_methods (fst (snd r)))] of
             [] \<Rightarrow> MethodNotAllowed
           | (p, ms, view) # _ \<Rightarrow>
               if req_method req = OPTIONS \<and> OPTIONS \<notin> set ms then AutomaticOptions
               else view req))"

text \<open>
  The factory \<^verbatim>\<open>create_app\<close> (lines 80 to 98) builds an application with the view
  \<^verbatim>\<open>index\<close> on the root path for \<^verbatim>\<open>GET\<close> and \<^verbatim>\<open>POST\<close>. Nothing in \<^verbatim>\<open>app.py\<close> calls it.
\<close>

definition create_app ::
  "(cell \<Rightarrow> datetime option) \<Rightarrow> (figure \<Rightarrow> string) \<Rightarrow> state \<Rightarrow> flask_app" where
  "create_app parse to_html st = [(''/'', [GET, POST], index parse to_html st)]"

text \<open>
  The module-level \<^verbatim>\<open>app\<close> (lines 153 to 159, which replace the one of line 10) has the
  view \<^verbatim>\<open>home\<close> on the root path, declared without \<^verbatim>\<open>methods\<close>.
\<close>

definition home :: "request \<Rightarrow> response" where
  "home req = Body ''Flask is working!''"

definition app :: flask_app where
  "app = [(''/'', [GET], home)]"

text \<open>
  The process: the start-up script runs, and when it has not stopped
  \<^verbatim>\<open>app.run(debug=True, use_reloader=False)\<close> serves the module-level \<^verbatim>\<open>app\<close>.
\<close>

definition main :: "env \<Rightarrow> request \<Rightarrow> error + response" where
  "main w req = (case startup w of Inl e \<Rightarrow> Inl e | Inr st \<Rightarrow> Inr (dispatch app req))"

section \<open>Notions the properties are stated with\<close>

text \<open>
  What start-up guarantees of the table a request reads: one column is labelled
  \<^verbatim>\<open>name\<close>, one is labelled \<^verbatim>\<open>date\<close>, and the date column holds time stamps.
\<close>

fun is_date :: "cell \<Rightarrow> bool" where
  "is_date (Date u) = True"
| "is_date _ = False"

definition unified :: "frame \<Rightarrow> bool" where
  "unified t =
     (case (loc (columns t) ''name'', loc (columns t) ''date'') of
        (Inr i, Inr j) \<Rightarrow> list_all (\<lambda>r. is_date (cell_at r j)) (rows t)
      | _ \<Rightarrow> False)"


section \<open>A small run of the program\<close>

text \<open>
  Three archives: two hold an entry with the base name \<^verbatim>\<open>jumps.csv\<close>, one cannot be
  opened. The extraction folder is empty before. The parsed file has four rows, one of
  them with a date pandas cannot read.
\<close>

definition ex_zip_files :: "archive list" where
  "ex_zip_files =
     [Zip [(''jan/jumps.csv'', Data ''old''), (''readme.txt'', Data ''text'')],
      BadZip,
      Zip [(''feb/jumps.csv'', Data ''new''), (''feb/empty.csv'', Data [])]]"

definition ex_raw :: frame where
  "ex_raw =
     \<lparr>columns = ['' Date'', ''Name '', ''Time To Takeoff'', ''mRSI''],
      rows =
        [[Text ''2024-01-01'', Text ''A'', Number 21, Number 352],
         [Text ''2024-01-02'', Text ''A'', Number 22, Number 340],
         [Text ''n/a'', Text ''B'', Number 30, Number 300],
         [Text ''2024-01-03'', Text ''B'', Number 25, Number 310]]\<rparr>"

definition ex_read_csv :: "bytes \<Rightarrow> error + frame" where
  "ex_read_csv bs = (if bs = ''new'' then Inr ex_raw else Inl ValueError)"

definition ex_parse :: "cell \<Rightarrow> datetime option" where
  "ex_parse c =
     (if c = Text ''2024-01-01'' then Some (Timestamp 1)
      else if c = Text ''2024-01-02'' then Some (Timestamp 2)
      else if c = Text ''2024-01-03'' then Some (Timestamp 3)
      else if c = Text [] then Some NaT
      else None)"

definition ex_env :: env where
  "ex_env =
     \<lparr>zip_files = ex_zip_files, extract_folder = [], getmtime = (\<lambda>n. 0),
      read_csv = ex_read_csv, parse_datetime = ex_parse\<rparr>"

definition ex_table :: frame where
  "ex_table =
     \<lparr>columns = [''date'', ''name'', ''time_to_takeoff'', ''mrsi''],
      rows =
        [[Date (Timestamp 1), Text ''A'', Number 21, Number 352],
         [Date (Timestamp 2), Text ''A'', Number 22, Number 340],
         [Date (Timestamp 3), Text ''B'', Number 25, Number 310]]\<rparr>"

definition ex_state :: state where
  "ex_state = \<lparr>df = ex_table, DEFAULT_ATHLETE = Text ''A''\<rparr>"

text \<open>An HTML writer for the run: it only names the two series.\<close>

definition ex_to_html :: "figure \<Rightarrow> string" where
  "ex_to_html fig = concat (map scatter_name (fig_data fig))"

text \<open>Two runs that do not get through line 76: no name column, and no readable date.\<close>

definition ex_env_no_name :: env where
  "ex_env_no_name =
     ex_env\<lparr>read_csv :=
       (\<lambda>bs. if bs = ''new''
          then Inr \<lparr>columns = [''Date'', ''Athlete''], rows = [[Text ''2024-01-01'', Text ''A'']]\<rparr>
          else Inl ValueError)\<rparr>"

definition ex_env_no_rows :: env where
  "ex_env_no_rows = ex_env\<lparr>parse_datetime := (\<lambda>c. None)\<rparr>"

section \<open>Properties of the label transform\<close>













section \<open>Properties of the extraction\<close>

lemma extract_names_written:
  "extract_names es d names = foldl write_file d (written_names es names)"
  by (induction names arbitrary: d) (auto simp: write_file_def split: payload.splits)

lemma extract_zip_written: "extract_zip d z = foldl write_file d (written_zip z)"
  by (cases z) (simp_all add: extract_names_written)

lemma extract_all_written: "extract_all d zs = foldl write_file d (written zs)"
proof (induction zs arbitrary: d)
  case Nil
  then show ?case by (simp add: extract_all_def written_def)
next
  case (Cons z zs)
  have "extract_all d (z # zs) = extract_all (extract_zip d z) zs"
    by (simp add: extract_all_def)
  also have "\<dots> = foldl write_file (foldl write_file d (written_zip z)) (written zs)"
    by (simp add: Cons.IH extract_zip_written)
  also have "\<dots> = foldl write_file d (written (z # zs))"
    by (simp add: written_def)
  finally show ?case .
qed

lemma write_file_other:
  "basename (fst w) \<noteq> k \<Longrightarrow> map_of (write_file d w) k = map_of d k"
  by (simp add: write_file_def update_conv')

lemma write_file_same: "map_of (write_file d (f, bs)) (basename f) = Some bs"
  by (simp add: write_file_def update_conv')

lemma writes_elsewhere:
  "\<forall>w \<in> set ws. basename (fst w) \<noteq> k \<Longrightarrow> map_of (foldl write_file d ws) k = map_of d k"
  by (induction ws arbitrary: d) (simp_all add: write_file_other)

lemma distinct_write_file: "distinct (map fst d) \<Longrightarrow> distinct (map fst (write_file d w))"
  by (simp add: write_file_def distinct_update)

lemma distinct_writes:
  "distinct (map fst d) \<Longrightarrow> distinct (map fst (foldl write_file d ws))"
  by (induction ws arbitrary: d) (simp_all add: distinct_write_file)

lemma distinct_lookup:
  "distinct (map fst d) \<Longrightarrow> map_of d k = Some v \<Longrightarrow> [b. (n, b) \<leftarrow> d, n = k] = [v]"
proof (induction d)
  case Nil
  then show ?case by simp
next
  case (Cons p d)
  obtain n b where p: "p = (n, b)" by (cases p)
  show ?case
  proof (cases "n = k")
    case True
    with Cons.prems p have "b = v" by simp
    moreover have "[b. (n, b) \<leftarrow> d, n = k] = []"
    proof -
      from Cons.prems p True have "k \<notin> fst ` set d" by simp
      then have "\<forall>q \<in> set d. fst q \<noteq> k" by auto
      then show ?thesis by (induction d) auto
    qed
    ultimately show ?thesis using p True by simp
  next
    case False
    with Cons p show ?thesis by simp
  qed
qed

text \<open>
  C9. When two entries that are written (in one archive or in two) have the same base
  file name, both go to the same path of the extraction folder; once the extraction is
  over, the folder holds under that name one file, with the bytes of the entry written
  last, whatever the earlier entry held.
\<close>

theorem later_entry_overwrites:
  assumes "written zs = ws1 @ (f1, b1) # ws2 @ (f2, b2) # ws3"
    and "basename f1 = basename f2"
    and "\<forall>w \<in> set ws3. basename (fst w) \<noteq> basename f2"
    and "distinct (map fst d)"
  shows "map_of (extract_all d zs) (basename f2) = Some b2
    \<and> [b. (n, b) \<leftarrow> extract_all d zs, n = basename f1] = [b2]"
proof -
  let ?d = "foldl write_file d (ws1 @ (f1, b1) # ws2)"
  have "extract_all d zs = foldl write_file (write_file ?d (f2, b2)) ws3"
    by (simp add: extract_all_written assms(1))
  then have m: "map_of (extract_all d zs) (basename f2) = Some b2"
    using writes_elsewhere [OF assms(3)] by (simp add: write_file_same)
  have "distinct (map fst (extract_all d zs))"
    by (simp add: extract_all_written distinct_writes assms(4))
  from distinct_lookup [OF this m] m assms(2) show ?thesis by simp
qed

theorem later_entry_overwrites_witness:
  "written ex_zip_files =
      [] @ (''jan/jumps.csv'', ''old'') # [] @ (''feb/jumps.csv'', ''new'') # [(''feb/empty.csv'', [])]
    \<and> basename ''jan/jumps.csv'' = basename ''feb/jumps.csv''
    \<and> map_of (extract_all [] ex_zip_files) (basename ''feb/jumps.csv'') = Some ''new''
    \<and> [b. (n, b) \<leftarrow> extract_all [] ex_zip_files, n = basename ''jan/jumps.csv''] = [''new'']"
proof -
  have h1: "written ex_zip_files =
      [] @ (''jan/jumps.csv'', ''old'') # [] @ (''feb/jumps.csv'', ''new'') # [(''feb/empty.csv'', [])]"
    by code_simp
  have h2: "basename ''jan/jumps.csv'' = basename ''feb/jumps.csv''"
    by code_simp
  have h3: "\<forall>w \<in> set [(''feb/empty.csv'', [])]. basename (fst w) \<noteq> basename ''feb/jumps.csv''"
    by (simp add: basename_def)
  have h4: "distinct (map fst ([] :: dir))"
    by simp
  from later_entry_overwrites [OF h1 h2 h3 h4] h1 h2 show ?thesis
    by blast
qed


section \<open>Properties of the start-up\<close>




lemma setitem_map:
  "map (\<lambda>(r, v). r[i := v]) (zip rs (map f rs)) = map (\<lambda>r. r[i := f r]) rs"
  by (induction rs) simp_all

lemma kept_after_coercion:
  "(\<not> isna (cell_at (r[i := Date (to_datetime_coerce parse (cell_at r i))]) i))
     = (to_datetime_coerce parse (cell_at r i) \<noteq> NaT)"
  by (cases "i < length r") (simp_all add: cell_at_def isna_def to_datetime_coerce_def)

lemma clean_result:
  assumes "clean parse m = Inr t"
  shows "\<exists>i. loc (map normalize_label (columns m)) ''date'' = Inr i
    \<and> columns t = map normalize_label (columns m)
    \<and> rows t = map (\<lambda>r. r[i := Date (to_datetime_coerce parse (cell_at r i))])
        [r \<leftarrow> rows m. to_datetime_coerce parse (cell_at r i) \<noteq> NaT]"
proof -
  from assms obtain i where i: "loc (map normalize_label (columns m)) ''date'' = Inr i"
    and t: "t = dropna (setitem (normalize_columns m) i
                 (coerced_dates parse (normalize_columns m) i)) i"
    by (auto simp: clean_def Let_def normalize_columns_def split: sum.splits)
  have "rows t = [r \<leftarrow> map (\<lambda>r. r[i := Date (to_datetime_coerce parse (cell_at r i))]) (rows m).
                   \<not> isna (cell_at r i)]"
    by (simp add: t dropna_def setitem_def coerced_dates_def normalize_columns_def setitem_map)
  also have "\<dots> = map (\<lambda>r. r[i := Date (to_datetime_coerce parse (cell_at r i))])
        [r \<leftarrow> rows m. to_datetime_coerce parse (cell_at r i) \<noteq> NaT]"
    by (simp add: filter_map comp_def kept_after_coercion)
  finally have "rows t = map (\<lambda>r. r[i := Date (to_datetime_coerce parse (cell_at r i))])
        [r \<leftarrow> rows m. to_datetime_coerce parse (cell_at r i) \<noteq> NaT]" .
  moreover have "columns t = map normalize_label (columns m)"
    by (simp add: t dropna_def setitem_def normalize_columns_def)
  ultimately show ?thesis using i by blast
qed

lemma build_table_clean:
  "build_table w = Inr t \<Longrightarrow> clean (parse_datetime w) (pd_concat (all_data_frames w)) = Inr t"
  by (simp add: build_table_def Let_def split: if_splits)

lemma startup_table: "startup w = Inr st \<Longrightarrow> build_table w = Inr (df st)"
  by (auto simp: startup_def split: sum.splits)

lemma startup_default:
  "startup w = Inr st \<Longrightarrow> default_athlete (df st) = Inr (DEFAULT_ATHLETE st)"
  by (auto simp: startup_def split: sum.splits)



lemma positions_empty: "(positions cs c = []) = (c \<notin> set cs)"
  by (auto simp: positions_def filter_empty_conv in_set_conv_nth)

lemma loc_missing:
  assumes "c \<notin> set cs"
  shows "loc cs c = Inl (KeyError c)"
proof -
  from assms have "positions cs c = []" by (simp add: positions_empty)
  then show ?thesis by (simp add: loc_def)
qed

lemma loc_found: "loc cs c = Inr i \<Longrightarrow> i < length cs \<and> cs ! i = c"
proof -
  assume "loc cs c = Inr i"
  then have "positions cs c = [i]"
    by (auto simp: loc_def split: list.splits)
  then have "i \<in> set (positions cs c)" by simp
  then show ?thesis by (simp add: positions_def)
qed

lemma loc_present:
  "c \<in> set cs \<Longrightarrow> (\<exists>i. loc cs c = Inr i) \<or> loc cs c = Inl (DuplicateLabel c)"
  by (auto simp: loc_def positions_empty split: list.splits)

lemma unique_empty: "(unique vs = []) = (vs = [])"
  by (cases vs) simp_all

lemma unique_first: "unique vs = a # us \<Longrightarrow> \<exists>ws. vs = a # ws"
  by (cases vs) simp_all

text \<open>
  C10. Start-up gets through line 76 only if the Unified Table has a column labelled
  \<^verbatim>\<open>name\<close> and at least one row: without the column the script stops with
  \<^verbatim>\<open>KeyError\<close>, with the column and no row it stops too (\<^verbatim>\<open>IndexError\<close> on the empty
  array of unique values), in both cases before any request can be served.
\<close>

theorem startup_needs_name_and_row:
  assumes "build_table w = Inr t"
  shows "(''name'' \<notin> set (columns t) \<longrightarrow> startup w = Inl (KeyError ''name''))
    \<and> (''name'' \<in> set (columns t) \<and> rows t = [] \<longrightarrow>
          startup w = Inl IndexError \<or> startup w = Inl (DuplicateLabel ''name''))
    \<and> (\<forall>st. startup w = Inr st \<longrightarrow>
          df st = t \<and> ''name'' \<in> set (columns t) \<and> rows t \<noteq> [])
    \<and> (\<forall>req. (\<exists>r. main w req = Inr r) \<longrightarrow> ''name'' \<in> set (columns t) \<and> rows t \<noteq> [])"
proof -
  have a: "startup w = Inl (KeyError ''name'')" if "''name'' \<notin> set (columns t)"
    using that assms by (simp add: startup_def default_athlete_def getitem_def loc_missing)
  have b: "startup w = Inl IndexError \<or> startup w = Inl (DuplicateLabel ''name'')"
    if "''name'' \<in> set (columns t)" and "rows t = []"
    using loc_present [OF that(1)] that(2) assms
    by (auto simp: startup_def default_athlete_def getitem_def)
  have c: "df st = t \<and> ''name'' \<in> set (columns t) \<and> rows t \<noteq> []" if "startup w = Inr st" for st
  proof -
    from that assms have d: "df st = t"
      by (auto simp: startup_def split: sum.splits)
    from that a have "''name'' \<in> set (columns t)" by auto
    moreover from that b this have "rows t \<noteq> []" by auto
    ultimately show ?thesis using d by simp
  qed
  have d: "''name'' \<in> set (columns t) \<and> rows t \<noteq> []" if "main w req = Inr r" for req r
  proof -
    from that obtain st where "startup w = Inr st"
      by (auto simp: main_def split: sum.splits)
    from c [OF this] show ?thesis by simp
  qed
  from a b c d show ?thesis by blast
qed

theorem startup_needs_name_and_row_witness:
  "build_table ex_env = Inr ex_table
    \<and> startup ex_env = Inr ex_state
    \<and> ''name'' \<in> set (columns ex_table)
    \<and> rows ex_table \<noteq> []
    \<and> ''name'' \<notin> set [''date'', ''athlete'']
    \<and> startup ex_env_no_name = Inl (KeyError ''name'')
    \<and> build_table ex_env_no_rows = Inr (ex_table\<lparr>rows := []\<rparr>)
    \<and> startup ex_env_no_rows = Inl IndexError"
proof -
  have h1: "build_table ex_env = Inr ex_table"
    by code_simp
  have h2: "startup ex_env = Inr ex_state"
    by code_simp
  have h3: "build_table ex_env_no_name =
      Inr \<lparr>columns = [''date'', ''athlete''], rows = [[Date (Timestamp 1), Text ''A'']]\<rparr>"
    by code_simp
  have h4: "build_table ex_env_no_rows = Inr (ex_table\<lparr>rows := []\<rparr>)"
    by code_simp
  have n: "''name'' \<notin> set [''date'', ''athlete'']"
    by simp
  have d: "startup ex_env_no_rows \<noteq> Inl (DuplicateLabel ''name'')"
    by code_simp
  from startup_needs_name_and_row [OF h1] h2
  have "''name'' \<in> set (columns ex_table) \<and> rows ex_table \<noteq> []"
    by blast
  moreover from startup_needs_name_and_row [OF h3] n
  have "startup ex_env_no_name = Inl (KeyError ''name'')"
    by simp
  moreover from startup_needs_name_and_row [OF h4] d
  have "startup ex_env_no_rows = Inl IndexError"
    by (simp add: ex_table_def)
  ultimately show ?thesis using h1 h2 h4 n by blast
qed


section \<open>Properties of the query engine and the renderer\<close>










lemma filter_rows_columns:
  assumes "filter_rows parse t athlete start_date end_date = Inr v"
  shows "columns v = columns t"
  using assms
  by (auto simp: filter_rows_def boolean_index_def split: sum.splits)

lemma filter_rows_mask:
  assumes "filter_rows parse t athlete start_date end_date = Inr v"
  shows "\<exists>m. rows v = map fst (filter snd (zip (rows t) m))"
  using assms
  by (auto simp: filter_rows_def boolean_index_def split: sum.splits)

lemma filter_rows_date_column:
  assumes "filter_rows parse t athlete start_date end_date = Inr v"
  shows "\<exists>j. loc (columns t) ''date'' = Inr j"
  using assms
  by (auto simp: filter_rows_def getitem_def split: sum.splits)

lemma subseq_masked: "subseq (map fst (filter snd (zip rs m))) rs"
proof (induction rs arbitrary: m)
  case Nil
  then show ?case by simp
next
  case (Cons r rs)
  show ?case
  proof (cases m)
    case Nil
    then show ?thesis by simp
  next
    case (Cons b bs)
    with Cons.IH [of bs] show ?thesis by (cases b) (simp_all add: list_emb_Cons)
  qed
qed



lemma positions_snoc:
  "positions (cs @ [x]) c = positions cs c @ (if x = c then [length cs] else [])"
proof -
  have "[i \<leftarrow> [0..<length cs]. (cs @ [x]) ! i = c] = [i \<leftarrow> [0..<length cs]. cs ! i = c]"
    by (rule filter_cong) (simp_all add: nth_append)
  then show ?thesis by (simp add: positions_def)
qed

lemma positions_count: "length (positions cs c) = count_list cs c"
proof (induction cs rule: rev_induct)
  case Nil
  then show ?case by (simp add: positions_def)
next
  case (snoc x cs)
  then show ?case by (simp add: positions_snoc)
qed

lemma loc_single:
  assumes "count_list cs c \<le> 1" and "c \<in> set cs"
  shows "\<exists>i. loc cs c = Inr i"
proof -
  from assms(2) have "positions cs c \<noteq> []" by (simp add: positions_empty)
  moreover from assms(1) have "length (positions cs c) \<le> 1" by (simp add: positions_count)
  ultimately obtain i where "positions cs c = [i]"
    by (cases "positions cs c") auto
  then show ?thesis by (simp add: loc_def)
qed

text \<open>
  C4. When the filtered view has a row, a metric name that labels no column of the view
  makes \<^verbatim>\<open>create_plot\<close> fail with \<^verbatim>\<open>KeyError\<close> on that name (on the first metric when
  both are unknown), and no markup is produced. The first metric is taken not to label
  several columns.
\<close>

theorem missing_metric_raises:
  assumes "filter_rows parse t athlete start_date end_date = Inr v"
    and "\<not> df_empty v" and "count_list (columns v) var1 \<le> 1"
    and "var1 \<notin> set (columns v) \<or> var2 \<notin> set (columns v)"
  shows "create_plot parse to_html t athlete var1 var2 start_date end_date
    = Inl (KeyError (if var1 \<in> set (columns v) then var2 else var1))"
proof -
  from filter_rows_date_column [OF assms(1)] filter_rows_columns [OF assms(1)]
  obtain j where j: "loc (columns v) ''date'' = Inr j" by auto
  show ?thesis
  proof (cases "var1 \<in> set (columns v)")
    case False
    then show ?thesis
      using assms(1,2) j by (simp add: create_plot_def getitem_def loc_missing)
  next
    case True
    from loc_single [OF assms(3) True] obtain i where i: "loc (columns v) var1 = Inr i" ..
    from True assms(4) have "var2 \<notin> set (columns v)" by simp
    then show ?thesis
      using assms(1,2) j i True by (simp add: create_plot_def getitem_def loc_missing)
  qed
qed

theorem missing_metric_raises_witness:
  "filter_rows ex_parse ex_table (Text ''A'') (Text ''2024-01-01'') (Text ''2024-01-03'') =
      Inr (ex_table\<lparr>rows := [[Date (Timestamp 1), Text ''A'', Number 21, Number 352],
                               [Date (Timestamp 2), Text ''A'', Number 22, Number 340]]\<rparr>)
    \<and> create_plot ex_parse ex_to_html ex_table (Text ''A'') ''nonexistent_column'' ''mrsi''
         (Text ''2024-01-01'') (Text ''2024-01-03'') = Inl (KeyError ''nonexistent_column'')
    \<and> create_plot ex_parse ex_to_html ex_table (Text ''A'') ''mrsi'' ''nonexistent_column''
         (Text ''2024-01-01'') (Text ''2024-01-03'') = Inl (KeyError ''nonexistent_column'')"
proof -
  let ?v = "ex_table\<lparr>rows := [[Date (Timestamp 1), Text ''A'', Number 21, Number 352],
                               [Date (Timestamp 2), Text ''A'', Number 22, Number 340]]\<rparr>"
  have h1: "filter_rows ex_parse ex_table (Text ''A'') (Text ''2024-01-01'') (Text ''2024-01-03'')
      = Inr ?v"
    by code_simp
  have h2: "\<not> df_empty ?v" by (simp add: df_empty_def ex_table_def)
  have h3: "count_list (columns ?v) ''nonexistent_column'' \<le> 1"
    by (simp add: ex_table_def)
  have h3': "count_list (columns ?v) ''mrsi'' \<le> 1"
    by (simp add: ex_table_def)
  have c: "''nonexistent_column'' \<notin> set (columns ?v)" "''mrsi'' \<in> set (columns ?v)"
    by (simp_all add: ex_table_def)
  from c have h4: "''nonexistent_column'' \<notin> set (columns ?v) \<or> ''mrsi'' \<notin> set (columns ?v)"
    by blast
  from c have h5: "''mrsi'' \<notin> set (columns ?v) \<or> ''nonexistent_column'' \<notin> set (columns ?v)"
    by blast
  from missing_metric_raises [OF h1 h2 h3 h4, of ex_to_html] c
  have a: "create_plot ex_parse ex_to_html ex_table (Text ''A'') ''nonexistent_column'' ''mrsi''
         (Text ''2024-01-01'') (Text ''2024-01-03'') = Inl (KeyError ''nonexistent_column'')"
    by (simp only: if_False)
  from missing_metric_raises [OF h1 h2 h3' h5, of ex_to_html] c
  have b: "create_plot ex_parse ex_to_html ex_table (Text ''A'') ''mrsi'' ''nonexistent_column''
         (Text ''2024-01-01'') (Text ''2024-01-03'') = Inl (KeyError ''nonexistent_column'')"
    by (simp only: if_True)
  from h1 a b show ?thesis by blast
qed

text \<open>
  C7. Whatever the subject and the bounds, a view the filter returns has the columns of
  the Unified Table, and its rows are rows of the Unified Table, in the table's order.
\<close>

theorem filtered_view_subset:
  assumes "filter_rows parse t athlete start_date end_date = Inr v"
  shows "columns v = columns t \<and> set (rows v) \<subseteq> set (rows t) \<and> subseq (rows v) (rows t)"
proof -
  from filter_rows_mask [OF assms] obtain m
    where m: "rows v = map fst (filter snd (zip (rows t) m))" ..
  have s: "subseq (rows v) (rows t)"
    unfolding m by (rule subseq_masked)
  have "set (rows v) \<subseteq> set (rows t)"
    unfolding m by (auto dest: set_zip_leftD)
  with s filter_rows_columns [OF assms] show ?thesis by simp
qed

theorem filtered_view_subset_witness:
  "filter_rows ex_parse ex_table (Text ''B'') (Text ''2024-01-01'') (Text ''2024-01-03'') =
      Inr (ex_table\<lparr>rows := [[Date (Timestamp 3), Text ''B'', Number 25, Number 310]]\<rparr>)
    \<and> columns (ex_table\<lparr>rows := [[Date (Timestamp 3), Text ''B'', Number 25, Number 310]]\<rparr>)
        = columns ex_table
    \<and> set [[Date (Timestamp 3), Text ''B'', Number 25, Number 310]] \<subseteq> set (rows ex_table)
    \<and> subseq [[Date (Timestamp 3), Text ''B'', Number 25, Number 310]] (rows ex_table)"
proof -
  have h: "filter_rows ex_parse ex_table (Text ''B'') (Text ''2024-01-01'') (Text ''2024-01-03'') =
      Inr (ex_table\<lparr>rows := [[Date (Timestamp 3), Text ''B'', Number 25, Number 310]]\<rparr>)"
    by code_simp
  from filtered_view_subset [OF h] h show ?thesis by simp
qed


section \<open>Properties of the web endpoint\<close>

lemma clean_dates:
  assumes "clean parse m = Inr t"
  shows "\<exists>j. loc (columns t) ''date'' = Inr j
    \<and> (\<forall>r \<in> set (rows t). \<exists>n. cell_at r j = Date (Timestamp n))"
proof -
  from clean_result [OF assms] obtain i
    where i: "loc (map normalize_label (columns m)) ''date'' = Inr i"
      and c: "columns t = map normalize_label (columns m)"
      and r: "rows t = map (\<lambda>r. r[i := Date (to_datetime_coerce parse (cell_at r i))])
          [r \<leftarrow> rows m. to_datetime_coerce parse (cell_at r i) \<noteq> NaT]"
    by blast
  have "\<exists>n. cell_at r' i = Date (Timestamp n)" if "r' \<in> set (rows t)" for r'
  proof -
    from that r obtain r0
      where r0: "r' = r0[i := Date (to_datetime_coerce parse (cell_at r0 i))]"
        and k: "to_datetime_coerce parse (cell_at r0 i) \<noteq> NaT"
      by auto
    from k have "i < length r0"
      by (cases "i < length r0") (simp_all add: cell_at_def to_datetime_coerce_def)
    with r0 have "cell_at r' i = Date (to_datetime_coerce parse (cell_at r0 i))"
      by (simp add: cell_at_def)
    with k show ?thesis
      by (cases "to_datetime_coerce parse (cell_at r0 i)") simp_all
  qed
  with i c show ?thesis by auto
qed

lemma default_athlete_first:
  assumes "default_athlete t = Inr a"
  shows "\<exists>others. getitem t ''name'' = Inr (a # others)"
proof -
  from assms obtain col us where "getitem t ''name'' = Inr col" and "unique col = a # us"
    by (auto simp: default_athlete_def split: sum.splits list.splits)
  with unique_first [of col a us] show ?thesis by auto
qed

lemma stamps_of_dates:
  assumes "\<forall>d \<in> set ds. \<exists>n. d = Date (Timestamp n)"
  shows "map (\<lambda>n. Date (Timestamp n)) (List.map_filter stamp ds) = ds"
  using assms
proof (induction ds)
  case Nil
  then show ?case by (simp add: List.map_filter_simps)
next
  case (Cons d ds)
  from Cons.prems obtain n where "d = Date (Timestamp n)" by auto
  with Cons show ?case by (simp add: List.map_filter_simps)
qed

lemma full_span:
  assumes "\<forall>d \<in> set ds. \<exists>n. d = Date (Timestamp n)" and "ds \<noteq> []"
  shows "\<exists>lo hi. series_min ds = Date (Timestamp lo) \<and> series_max ds = Date (Timestamp hi)
    \<and> Date (Timestamp lo) \<in> set ds \<and> Date (Timestamp hi) \<in> set ds
    \<and> (\<forall>d \<in> set ds. \<exists>x. d = Date (Timestamp x) \<and> lo \<le> x \<and> x \<le> hi)"
proof -
  let ?ns = "List.map_filter stamp ds"
  have ds: "ds = map (\<lambda>n. Date (Timestamp n)) ?ns"
    by (rule stamps_of_dates [OF assms(1), symmetric])
  with assms(2) obtain n ns where ns: "?ns = n # ns"
    by (cases ?ns) auto
  have lo: "fold min ns n = Min (set ?ns)" and hi: "fold max ns n = Max (set ?ns)"
    unfolding ns by (rule Min.set_eq_fold [symmetric], rule Max.set_eq_fold [symmetric])
  have f: "finite (set ?ns)" and e: "set ?ns \<noteq> {}"
    by (simp_all add: ns)
  have "series_min ds = Date (Timestamp (Min (set ?ns)))"
    by (simp add: series_min_def ns lo [unfolded ns])
  moreover have "series_max ds = Date (Timestamp (Max (set ?ns)))"
    by (simp add: series_max_def ns hi [unfolded ns])
  moreover have "Date (Timestamp (Min (set ?ns))) \<in> set ds"
    using Min_in [OF f e] by (subst ds) simp
  moreover have "Date (Timestamp (Max (set ?ns))) \<in> set ds"
    using Max_in [OF f e] by (subst ds) simp
  moreover have "\<exists>x. d = Date (Timestamp x) \<and> Min (set ?ns) \<le> x \<and> x \<le> Max (set ?ns)"
    if "d \<in> set ds" for d
  proof -
    from that ds obtain x where "x \<in> set ?ns" and "d = Date (Timestamp x)"
      by (metis (no_types, lifting) imageE list.set_map)
    with f show ?thesis by auto
  qed
  ultimately show ?thesis by blast
qed

lemma startup_dates:
  assumes "startup w = Inr st"
  shows "\<exists>j. loc (columns (df st)) ''date'' = Inr j
    \<and> (\<forall>r \<in> set (rows (df st)). \<exists>n. cell_at r j = Date (Timestamp n))"
  by (rule clean_dates [OF build_table_clean [OF startup_table [OF assms]]])

text \<open>What start-up guarantees is what the properties of the query engine assume.\<close>

lemma startup_unified:
  assumes "startup w = Inr st"
  shows "unified (df st)"
proof -
  from startup_dates [OF assms] obtain j
    where j: "loc (columns (df st)) ''date'' = Inr j"
      and d: "\<forall>r \<in> set (rows (df st)). \<exists>n. cell_at r j = Date (Timestamp n)"
    by blast
  from default_athlete_first [OF startup_default [OF assms]]
  obtain i where i: "loc (columns (df st)) ''name'' = Inr i"
    by (auto simp: getitem_def split: sum.splits)
  from d have "\<forall>r \<in> set (rows (df st)). is_date (cell_at r j)" by auto
  with i j show ?thesis by (simp add: unified_def list_all_iff)
qed

text \<open>
  C8. In the view \<^verbatim>\<open>index\<close>, every parameter the form does not carry takes its default:
  the subject is the name in the first row of the Unified Table, the metrics are
  \<^verbatim>\<open>time_to_takeoff\<close> and \<^verbatim>\<open>mrsi\<close>, and the dates are the least and the greatest date of
  the Unified Table. \<^verbatim>\<open>create_plot\<close> is called on the values so resolved.
\<close>

theorem absent_parameters_take_defaults:
  assumes "startup w = Inr st"
  shows "\<exists>a v1 v2 s u first others dates lo hi.
      request_args st req = Inr (a, v1, v2, s, u)
    \<and> getitem (df st) ''name'' = Inr (first # others)
    \<and> getitem (df st) ''date'' = Inr dates
    \<and> Date (Timestamp lo) \<in> set dates \<and> Date (Timestamp hi) \<in> set dates
    \<and> (\<forall>d \<in> set dates. \<exists>x. d = Date (Timestamp x) \<and> lo \<le> x \<and> x \<le> hi)
    \<and> (map_of (req_form req) ''athlete'' = None \<longrightarrow> a = first)
    \<and> (map_of (req_form req) ''var1'' = None \<longrightarrow> v1 = ''time_to_takeoff'')
    \<and> (map_of (req_form req) ''var2'' = None \<longrightarrow> v2 = ''mrsi'')
    \<and> (map_of (req_form req) ''start_date'' = None \<longrightarrow> s = Date (Timestamp lo))
    \<and> (map_of (req_form req) ''end_date'' = None \<longrightarrow> u = Date (Timestamp hi))
    \<and> index parse to_html st req =
        (case create_plot parse to_html (df st) a v1 v2 s u of
           Inl e \<Rightarrow> InternalServerError e
         | Inr plot_html \<Rightarrow>
             Template ''index.html'' plot_html (unique (first # others)) (columns (df st)))"
proof -
  from default_athlete_first [OF startup_default [OF assms]]
  obtain others where names: "getitem (df st) ''name'' = Inr (DEFAULT_ATHLETE st # others)" ..
  from startup_dates [OF assms] obtain j
    where j: "loc (columns (df st)) ''date'' = Inr j"
      and d: "\<forall>r \<in> set (rows (df st)). \<exists>n. cell_at r j = Date (Timestamp n)"
    by blast
  let ?dates = "map (\<lambda>r. cell_at r j) (rows (df st))"
  have dates: "getitem (df st) ''date'' = Inr ?dates"
    by (simp add: getitem_def j)
  from names have "rows (df st) \<noteq> []"
    by (auto simp: getitem_def split: sum.splits)
  then have "?dates \<noteq> []" by simp
  moreover from d have "\<forall>c \<in> set ?dates. \<exists>n. c = Date (Timestamp n)" by auto
  ultimately obtain lo hi
    where lo: "series_min ?dates = Date (Timestamp lo)"
      and hi: "series_max ?dates = Date (Timestamp hi)"
      and m: "Date (Timestamp lo) \<in> set ?dates" "Date (Timestamp hi) \<in> set ?dates"
      and sp: "\<forall>c \<in> set ?dates. \<exists>x. c = Date (Timestamp x) \<and> lo \<le> x \<and> x \<le> hi"
    using full_span [of ?dates] by blast
  define a where "a = (case map_of (req_form req) ''athlete'' of
      None \<Rightarrow> DEFAULT_ATHLETE st | Some v \<Rightarrow> Text v)"
  define v1 where "v1 = (case map_of (req_form req) ''var1'' of
      None \<Rightarrow> DEFAULT_VAR1 | Some v \<Rightarrow> v)"
  define v2 where "v2 = (case map_of (req_form req) ''var2'' of
      None \<Rightarrow> DEFAULT_VAR2 | Some v \<Rightarrow> v)"
  define s where "s = (case map_of (req_form req) ''start_date'' of
      None \<Rightarrow> series_min ?dates | Some v \<Rightarrow> Text v)"
  define u where "u = (case map_of (req_form req) ''end_date'' of
      None \<Rightarrow> series_max ?dates | Some v \<Rightarrow> Text v)"
  have args: "request_args st req = Inr (a, v1, v2, s, u)"
    by (simp add: request_args_def Let_def dates a_def v1_def v2_def s_def u_def)
  have idx: "index parse to_html st req =
        (case create_plot parse to_html (df st) a v1 v2 s u of
           Inl e \<Rightarrow> InternalServerError e
         | Inr plot_html \<Rightarrow>
             Template ''index.html'' plot_html (unique (DEFAULT_ATHLETE st # others))
               (columns (df st)))"
    by (simp add: index_def args names split: sum.splits)
  have "map_of (req_form req) ''athlete'' = None \<longrightarrow> a = DEFAULT_ATHLETE st"
    and "map_of (req_form req) ''var1'' = None \<longrightarrow> v1 = ''time_to_takeoff''"
    and "map_of (req_form req) ''var2'' = None \<longrightarrow> v2 = ''mrsi''"
    and "map_of (req_form req) ''start_date'' = None \<longrightarrow> s = Date (Timestamp lo)"
    and "map_of (req_form req) ''end_date'' = None \<longrightarrow> u = Date (Timestamp hi)"
    by (simp_all add: a_def v1_def v2_def s_def u_def lo hi DEFAULT_VAR1_def DEFAULT_VAR2_def)
  with args names dates m sp idx
  have c: "request_args st req = Inr (a, v1, v2, s, u)
    \<and> getitem (df st) ''name'' = Inr (DEFAULT_ATHLETE st # others)
    \<and> getitem (df st) ''date'' = Inr ?dates
    \<and> Date (Timestamp lo) \<in> set ?dates \<and> Date (Timestamp hi) \<in> set ?dates
    \<and> (\<forall>d \<in> set ?dates. \<exists>x. d = Date (Timestamp x) \<and> lo \<le> x \<and> x \<le> hi)
    \<and> (map_of (req_form req) ''athlete'' = None \<longrightarrow> a = DEFAULT_ATHLETE st)
    \<and> (map_of (req_form req) ''var1'' = None \<longrightarrow> v1 = ''time_to_takeoff'')
    \<and> (map_of (req_form req) ''var2'' = None \<longrightarrow> v2 = ''mrsi'')
    \<and> (map_of (req_form req) ''start_date'' = None \<longrightarrow> s = Date (Timestamp lo))
    \<and> (map_of (req_form req) ''end_date'' = None \<longrightarrow> u = Date (Timestamp hi))
    \<and> index parse to_html st req =
        (case create_plot parse to_html (df st) a v1 v2 s u of
           Inl e \<Rightarrow> InternalServerError e
         | Inr plot_html \<Rightarrow>
             Template ''index.html'' plot_html (unique (DEFAULT_ATHLETE st # others))
               (columns (df st)))"
    by (intro conjI)
  show ?thesis
    by (intro exI, rule c)
qed

theorem absent_parameters_take_defaults_witness:
  "startup ex_env = Inr ex_state
    \<and> getitem (df ex_state) ''name'' = Inr [Text ''A'', Text ''A'', Text ''B'']
    \<and> getitem (df ex_state) ''date'' = Inr [Date (Timestamp 1), Date (Timestamp 2), Date (Timestamp 3)]
    \<and> (\<exists>s u. request_args ex_state \<lparr>req_method = POST, req_path = ''/'', req_form = [(''var2'', ''name'')]\<rparr>
          = Inr (Text ''A'', ''time_to_takeoff'', ''name'', s, u)
        \<and> s \<in> set [Date (Timestamp 1), Date (Timestamp 2), Date (Timestamp 3)]
        \<and> u \<in> set [Date (Timestamp 1), Date (Timestamp 2), Date (Timestamp 3)])"
proof -
  let ?req = "\<lparr>req_method = POST, req_path = ''/'', req_form = [(''var2'', ''name'')]\<rparr>"
  have h: "startup ex_env = Inr ex_state"
    by code_simp
  have g1: "getitem (df ex_state) ''name'' = Inr [Text ''A'', Text ''A'', Text ''B'']"
    by code_simp
  have g2: "getitem (df ex_state) ''date''
      = Inr [Date (Timestamp 1), Date (Timestamp 2), Date (Timestamp 3)]"
    by code_simp
  have f: "map_of (req_form ?req) ''athlete'' = None" "map_of (req_form ?req) ''var1'' = None"
    "map_of (req_form ?req) ''start_date'' = None" "map_of (req_form ?req) ''end_date'' = None"
    by simp_all
  from absent_parameters_take_defaults [OF h, of ?req ex_parse ex_to_html]
  obtain a v1 v2 s u first others dates lo hi
    where r: "request_args ex_state ?req = Inr (a, v1, v2, s, u)"
      and n: "getitem (df ex_state) ''name'' = Inr (first # others)"
      and d: "getitem (df ex_state) ''date'' = Inr dates"
      and m: "Date (Timestamp lo) \<in> set dates" "Date (Timestamp hi) \<in> set dates"
      and a: "map_of (req_form ?req) ''athlete'' = None \<longrightarrow> a = first"
      and v1: "map_of (req_form ?req) ''var1'' = None \<longrightarrow> v1 = ''time_to_takeoff''"
      and s: "map_of (req_form ?req) ''start_date'' = None \<longrightarrow> s = Date (Timestamp lo)"
      and u: "map_of (req_form ?req) ''end_date'' = None \<longrightarrow> u = Date (Timestamp hi)"
    by (elim exE conjE) (rule that; assumption)
  from n g1 have "first = Text ''A''" by simp
  with a f have a': "a = Text ''A''" by simp
  from v1 f have v1': "v1 = ''time_to_takeoff''" by simp
  from d g2 have dates: "dates = [Date (Timestamp 1), Date (Timestamp 2), Date (Timestamp 3)]"
    by simp
  from s f m have s': "s \<in> set [Date (Timestamp 1), Date (Timestamp 2), Date (Timestamp 3)]"
    by (simp only: dates)
  from u f m have u': "u \<in> set [Date (Timestamp 1), Date (Timestamp 2), Date (Timestamp 3)]"
    by (simp only: dates)
  have "v2 = ''name''"
    using r by (simp add: request_args_def Let_def split: sum.splits)
  with r a' v1' s' u' h g1 g2 show ?thesis by blast
qed

lemma create_app_routes:
  assumes "m = GET \<or> m = POST"
  shows "dispatch (create_app parse to_html st) \<lparr>req_method = m, req_path = ''/'', req_form = fm\<rparr>
    = index parse to_html st \<lparr>req_method = m, req_path = ''/'', req_form = fm\<rparr>"
  using assms by (auto simp: dispatch_def create_app_def route_methods_def)

text \<open>
  C1 (the code departs from it). The application the program serves is the module-level
  \<^verbatim>\<open>app\<close>, whose only rule is the view \<^verbatim>\<open>home\<close>: on the root path a \<^verbatim>\<open>GET\<close> is answered
  with the fixed text and a \<^verbatim>\<open>POST\<close> with status 405, whatever the form carries. The view
  that renders the chart with the two option lists is registered by \<^verbatim>\<open>create_app\<close> only.
\<close>

theorem served_root_is_home:
  assumes "startup w = Inr st"
  shows "main w \<lparr>req_method = GET, req_path = ''/'', req_form = fm\<rparr>
      = Inr (Body ''Flask is working!'')
    \<and> main w \<lparr>req_method = POST, req_path = ''/'', req_form = fm\<rparr> = Inr MethodNotAllowed"
  using assms by (simp add: main_def dispatch_def app_def home_def route_methods_def)

theorem served_root_is_home_witness:
  "startup ex_env = Inr ex_state
    \<and> main ex_env \<lparr>req_method = GET, req_path = ''/'', req_form = [(''athlete'', ''B'')]\<rparr>
        = Inr (Body ''Flask is working!'')
    \<and> main ex_env \<lparr>req_method = POST, req_path = ''/'', req_form = [(''athlete'', ''B'')]\<rparr>
        = Inr MethodNotAllowed
    \<and> dispatch (create_app ex_parse ex_to_html ex_state)
         \<lparr>req_method = POST, req_path = ''/'', req_form = [(''athlete'', ''B'')]\<rparr>
        = Template ''index.html'' ''time_to_takeoffmrsi'' [Text ''A'', Text ''B'']
            [''date'', ''name'', ''time_to_takeoff'', ''mrsi'']"
proof -
  have h: "startup ex_env = Inr ex_state"
    by code_simp
  have c: "dispatch (create_app ex_parse ex_to_html ex_state)
         \<lparr>req_method = POST, req_path = ''/'', req_form = [(''athlete'', ''B'')]\<rparr>
        = Template ''index.html'' ''time_to_takeoffmrsi'' [Text ''A'', Text ''B'']
            [''date'', ''name'', ''time_to_takeoff'', ''mrsi'']"
    by code_simp
  from served_root_is_home [OF h, of "[(''athlete'', ''B'')]"] h c show ?thesis
    by blast
qed


end
